theory Spec2Isabelle
  imports Main "HOL-Library.Multiset"
begin

section \<open>Data model (types.ts)\<close>

text \<open>
  The TypeScript interfaces \<open>AutomationSuggestion\<close>, \<open>GuideStep\<close>, \<open>DetailedGuide\<close> and
  \<open>HistoryItem\<close> are compile-time types only: the values behind them are whatever
  \<open>JSON.parse\<close> returned, cast with \<open>as\<close> and never validated. They are therefore modelled
  as JSON values, with the interfaces' field names as property lookups. Numbers are
  mathematical integers (the response schema declares \<open>relevanceScore\<close> and \<open>stepNumber\<close>
  as INTEGER); an object is the association list of its own properties, in property
  order, with distinct keys.
\<close>

datatype json =
    JNull
  | JBool bool
  | JNum int
  | JStr string
  | JArr "json list"
  | JObj "(string \<times> json) list"

type_synonym AutomationSuggestion = json
type_synonym DetailedGuide = json
type_synonym HistoryItem = json

text \<open>
  The read \<open>v.k\<close> of a property that only an object parsed from JSON can have (the field
  names of the interfaces; none of them is a built-in property of an array or a
  string). \<open>None\<close> is JavaScript's \<open>undefined\<close>. A read on \<open>null\<close> throws and is handled
  where it can occur.
\<close>

fun field :: "json \<Rightarrow> string \<Rightarrow> json option" where
  "field (JObj kvs) k = map_of kvs k"
| "field _ k = None"

datatype AppState =
    IDLE | RECORDING | ANALYZING | SUGGESTING | VIEWING_GUIDE | GUIDE_LOADING | HISTORY

text \<open>A \<open>MediaStream\<close> is known to the component by its identity only.\<close>

type_synonym MediaStream = nat

text \<open>
  The \<open>useState\<close> cells of the \<open>App\<close> component (App.tsx, lines 11 to 21), one field per
  cell. \<open>None\<close> is \<open>null\<close>.
\<close>

record session =
  appState :: AppState
  stream :: "MediaStream option"
  suggestions :: "AutomationSuggestion list"
  selectedGuide :: "DetailedGuide option"
  errorMsg :: "string option"
  lastImage :: "string option"
  previousState :: AppState
  isAutoScan :: bool
  isAnalyzing :: bool

definition initial_session :: session where
  "initial_session =
     \<lparr>appState = IDLE, stream = None, suggestions = [], selectedGuide = None,
      errorMsg = None, lastImage = None, previousState = IDLE,
      isAutoScan = False, isAnalyzing = False\<rparr>"

section \<open>Synchronous handlers of App.tsx\<close>

text \<open>The constant \<open>hasContent\<close> of \<open>handleStopStream\<close> (line 41).\<close>

definition hasContent :: "session \<Rightarrow> bool" where
  "hasContent s \<longleftrightarrow>
     length (suggestions s) > 0 \<or> selectedGuide s \<noteq> None \<or> appState s = HISTORY"

text \<open>
  \<open>handleStopStream\<close> (lines 33 to 52). The second component is the stream whose tracks
  were stopped by \<open>stream.getTracks().forEach(track => track.stop())\<close>, if any.
\<close>

definition handleStopStream :: "session \<Rightarrow> session \<times> MediaStream option" where
  "handleStopStream s =
     (let s1 = s\<lparr>stream := None\<rparr>;
          s2 = s1\<lparr>isAutoScan := False\<rparr>;
          s3 = (if \<not> hasContent s then s2\<lparr>appState := IDLE\<rparr>
                else if appState s = RECORDING \<or> appState s = ANALYZING
                     then s2\<lparr>appState := SUGGESTING\<rparr>
                     else s2)
      in (s3, stream s))"

text \<open>\<open>handleReset\<close> (lines 54 to 64).\<close>

definition handleReset :: "session \<Rightarrow> session \<times> MediaStream option" where
  "handleReset s =
     (s\<lparr>stream := None, isAutoScan := False, appState := IDLE, suggestions := [],
        selectedGuide := None, lastImage := None\<rparr>, stream s)"

text \<open>\<open>handleBackToSuggestions\<close> (lines 227 to 230).\<close>

definition handleBackToSuggestions :: "session \<Rightarrow> session" where
  "handleBackToSuggestions s = s\<lparr>appState := SUGGESTING, selectedGuide := None\<rparr>"

text \<open>\<open>handleToggleHistory\<close> (lines 232 to 241).\<close>

definition handleToggleHistory :: "session \<Rightarrow> session" where
  "handleToggleHistory s =
     (if appState s = HISTORY
      then s\<lparr>appState := (if previousState s \<noteq> HISTORY then previousState s else IDLE)\<rparr>
      else s\<lparr>previousState := appState s, appState := HISTORY\<rparr>)"

text \<open>\<open>handleSelectHistoryGuide\<close> (lines 243 to 246).\<close>

definition handleSelectHistoryGuide :: "DetailedGuide \<Rightarrow> session \<Rightarrow> session" where
  "handleSelectHistoryGuide guide s = s\<lparr>selectedGuide := Some guide, appState := VIEWING_GUIDE\<rparr>"

text \<open>The auto-scan button's \<open>onClick\<close> (line 401).\<close>

definition toggleAutoScan :: "session \<Rightarrow> session" where
  "toggleAutoScan s = s\<lparr>isAutoScan := \<not> isAutoScan s\<rparr>"

text \<open>
  The auto-scan effect (lines 199 to 208): the period, in milliseconds, of the interval
  the effect installs for the rendered state, or \<open>None\<close> when it installs none. The
  effect's cleanup clears the interval whenever one of its dependencies changes, so the
  interval that exists is always the one of the current state.
\<close>

definition autoScanInterval :: "session \<Rightarrow> nat option" where
  "autoScanInterval s =
     (if isAutoScan s \<and> stream s \<noteq> None \<and> (appState s = RECORDING \<or> appState s = SUGGESTING)
      then Some 5000 else None)"

section \<open>History store (the storage service imported by App.tsx)\<close>

text \<open>
  The item stored in \<open>localStorage\<close> under \<open>STORAGE_KEY\<close>, seen through \<open>JSON.parse\<close>:
  \<open>NoItem\<close> when \<open>getItem\<close> returns \<open>null\<close> or the empty string (both are falsy for
  \<open>existing ? ... : []\<close>), \<open>Unparsable\<close> when \<open>JSON.parse(existing)\<close> throws, and
  \<open>Item v\<close> when it returns \<open>v\<close>. The functions on this view describe what a save does
  to the list of records; the functions on the stored text itself, with
  \<open>JSON.stringify\<close> and \<open>JSON.parse\<close>, follow them, and the two agree wherever \<open>JSON.parse\<close>
  reads back the history that \<open>JSON.stringify\<close> wrote.
\<close>

datatype storage = NoItem | Unparsable | Item json

text \<open>
  What one call of \<open>saveGuideToHistory\<close> takes from its environment: the results of
  \<open>crypto.randomUUID()\<close> and \<open>Date.now()\<close>, and whether \<open>localStorage.setItem\<close> throws
  (the quota is exceeded). Any other exception of the environment inside the \<open>try\<close>
  reaches the same \<open>catch\<close> before anything is written, and is covered by that flag.
\<close>

record save_env =
  randomUUID :: string
  now :: int
  setItem_throws :: bool

definition newItem :: "save_env \<Rightarrow> DetailedGuide \<Rightarrow> HistoryItem" where
  "newItem env guide =
     JObj [(''id'', JStr (randomUUID env)), (''guide'', guide), (''timestamp'', JNum (now env))]"

text \<open>
  \<open>saveGuideToHistory\<close> (lines 10 to 34). Every exception inside the \<open>try\<close> (the parse
  error, \<open>history.unshift\<close> on a value that is not an array, the failing \<open>setItem\<close>) ends
  in the \<open>catch\<close>, which only logs: the store is left as it was.
\<close>

definition saveGuideToHistory :: "save_env \<Rightarrow> DetailedGuide \<Rightarrow> storage \<Rightarrow> storage" where
  "saveGuideToHistory env guide st =
     (case (case st of NoItem \<Rightarrow> Some (JArr []) | Unparsable \<Rightarrow> None | Item v \<Rightarrow> Some v) of
        None \<Rightarrow> st
      | Some (JArr existing) \<Rightarrow>
          (let history = newItem env guide # existing;
               history = (if length history > 50 then take 50 history else history)
           in if setItem_throws env then st else Item (JArr history))
      | Some _ \<Rightarrow> st)"

text \<open>\<open>getHistory\<close> (lines 39 to 47) and \<open>clearHistory\<close> (lines 52 to 58).\<close>

definition getHistory :: "storage \<Rightarrow> json" where
  "getHistory st = (case st of NoItem \<Rightarrow> JArr [] | Unparsable \<Rightarrow> JArr [] | Item v \<Rightarrow> v)"

definition clearHistory :: "storage \<Rightarrow> storage" where
  "clearHistory st = NoItem"

text \<open>
  The records a caller of \<open>getHistory\<close> iterates over: the elements of the array it
  returns (a value that is not an array has none to iterate over).
\<close>

definition records :: "storage \<Rightarrow> HistoryItem list" where
  "records st = (case getHistory st of JArr items \<Rightarrow> items | _ \<Rightarrow> [])"

text \<open>Saving one guide after the other, the first of the list first.\<close>

definition save_all :: "(save_env \<times> DetailedGuide) list \<Rightarrow> storage \<Rightarrow> storage" where
  "save_all saves st = fold (\<lambda>(env, guide). saveGuideToHistory env guide) saves st"

section \<open>History store: the stored text\<close>







section \<open>Inference gateway (geminiService.ts)\<close>

datatype exn = Error string

text \<open>
  The outcome of \<open>await ai.models.generateContent(...)\<close> as the code after it reads it:
  the request is rejected, \<open>response.text\<close> is \<open>undefined\<close> or empty, \<open>JSON.parse(text)\<close>
  throws, or \<open>JSON.parse(text)\<close> returns a value.
\<close>

datatype reply = RequestFailed exn | NoText | Malformed | Payload json

text \<open>The elements on which \<open>e.relevanceScore\<close> is a number.\<close>

definition relevanceScore :: "AutomationSuggestion \<Rightarrow> int option" where
  "relevanceScore e = (case field e ''relevanceScore'' of Some (JNum n) \<Rightarrow> Some n | _ \<Rightarrow> None)"

text \<open>
  \<open>suggestions.sort((a, b) => b.relevanceScore - a.relevanceScore)\<close> on an array. No
  comparison is made on fewer than two elements. Where every element has a numeric
  score the comparator is a consistent order and the result is the stable sort
  (ECMAScript 2019), descending. On any other array the result depends on the engine's
  order of comparisons and on coercions (\<open>NaN\<close>, strings, a \<open>TypeError\<close> on \<open>null\<close>): it
  is the parameter \<open>engine_sort\<close>, \<open>None\<close> when the comparator throws.
\<close>

definition sort_by_relevance ::
  "(json list \<Rightarrow> json list option) \<Rightarrow> json list \<Rightarrow> json list option" where
  "sort_by_relevance engine_sort xs =
     (if length xs \<le> 1 then Some xs
      else if list_all (\<lambda>e. relevanceScore e \<noteq> None) xs
           then Some (sort_key (\<lambda>e. - the (relevanceScore e)) xs)
           else engine_sort xs)"

text \<open>
  \<open>analyzeScreenImage\<close>, lines 72 to 82, after the request. A parsed value that is not
  an array has no \<open>sort\<close> method: the call throws a \<open>TypeError\<close> inside the \<open>try\<close>.
\<close>

definition analyzeScreenImage ::
  "(json list \<Rightarrow> json list option) \<Rightarrow> reply \<Rightarrow> exn + AutomationSuggestion list" where
  "analyzeScreenImage engine_sort r =
     (case r of
        RequestFailed e \<Rightarrow> Inl e
      | NoText \<Rightarrow> Inr []
      | Malformed \<Rightarrow> Inr []
      | Payload (JArr parsed) \<Rightarrow>
          (case sort_by_relevance engine_sort parsed of
             Some ordered \<Rightarrow> Inr ordered
           | None \<Rightarrow> Inr [])
      | Payload _ \<Rightarrow> Inr [])"

text \<open>
  The shape the response schema and the interface \<open>AutomationSuggestion[]\<close> expect: an
  array of objects with the six required fields, each of its declared type.
\<close>

definition is_string :: "json option \<Rightarrow> bool" where
  "is_string v = (case v of Some (JStr _) \<Rightarrow> True | _ \<Rightarrow> False)"

definition is_string_array :: "json option \<Rightarrow> bool" where
  "is_string_array v =
     (case v of Some (JArr xs) \<Rightarrow> list_all (\<lambda>x. is_string (Some x)) xs | _ \<Rightarrow> False)"

definition is_suggestion :: "json \<Rightarrow> bool" where
  "is_suggestion e \<longleftrightarrow>
     is_string (field e ''id'') \<and> is_string (field e ''title'') \<and>
     is_string (field e ''estimatedTimeSavings'') \<and> is_string_array (field e ''tools'') \<and>
     is_string (field e ''description'') \<and> relevanceScore e \<noteq> None"

definition is_suggestion_array :: "json \<Rightarrow> bool" where
  "is_suggestion_array v = (case v of JArr xs \<Rightarrow> list_all is_suggestion xs | _ \<Rightarrow> False)"

section \<open>Asynchronous handlers of App.tsx\<close>

subsection \<open>startScreenShare\<close>

text \<open>
  \<open>startScreenShare\<close> (lines 66 to 117) with the outcome of the \<open>try\<close> block's
  acquisition: a stream, or the error thrown (by \<open>getDisplayMedia\<close>, or by line 71 when
  the API is missing). \<open>err.message\<close> may be \<open>undefined\<close>. The handler is taken as one step,
  from the click to the settled acquisition: nothing else reads or writes \<open>errorMsg\<close>
  in a way that depends on what happens in between.
\<close>

record js_error =
  err_name :: string
  err_message :: "string option"

datatype acquire = Acquired MediaStream | Thrown js_error

primrec str_includes :: "string \<Rightarrow> string \<Rightarrow> bool" where
  "str_includes [] sub = (sub = [])"
| "str_includes (c # cs) sub = (take (length sub) (c # cs) = sub \<or> str_includes cs sub)"

definition message_includes :: "js_error \<Rightarrow> string \<Rightarrow> bool" where
  "message_includes err sub = (case err_message err of None \<Rightarrow> False | Some m \<Rightarrow> str_includes m sub)"

definition startScreenShare :: "bool \<Rightarrow> acquire \<Rightarrow> session \<Rightarrow> session" where
  "startScreenShare autoStart outcome s =
     (let s0 = s\<lparr>errorMsg := None\<rparr>
      in case outcome of
           Acquired displayStream \<Rightarrow>
             s0\<lparr>stream := Some displayStream, appState := RECORDING, isAutoScan := autoStart\<rparr>
         | Thrown err \<Rightarrow>
             (if err_name err = ''NotAllowedError'' \<or> message_includes err ''Permission denied''
              then s0\<lparr>errorMsg := Some ''Permission denied. Please allow screen sharing when prompted, and check your System Settings (Privacy > Screen Recording) if on macOS.''\<rparr>
              else if message_includes err ''permissions policy''
              then s0\<lparr>errorMsg := Some ''Screen sharing is blocked by the environment policy. Please check if 'display-capture' permission is enabled.''\<rparr>
              else s0\<lparr>errorMsg := Some (''Failed to access screen: '' @
                       (case err_message err of
                          None \<Rightarrow> ''Unknown error''
                        | Some m \<Rightarrow> if m = [] then ''Unknown error'' else m))\<rparr>))"

subsection \<open>captureAndAnalyze\<close>

text \<open>
  What the synchronous part of \<open>captureAndAnalyze\<close> reads from the page: whether
  \<open>videoRef.current\<close> and \<open>canvasRef.current\<close> are both set, whether
  \<open>canvas.getContext('2d')\<close> returns a context, and the result of \<open>canvas.toDataURL\<close>.
\<close>

record dom =
  refs_current :: bool
  context_2d :: bool
  toDataURL :: string

text \<open>
  A handler suspended at an \<open>await\<close>, with what its continuation has captured:
  \<^item> \<open>AwaitAnalyze isAuto appState base64Image\<close>: \<open>captureAndAnalyze\<close> at line 156; the
    \<open>appState\<close> is the one of the render the callback was created in, which line 183
    reads;
  \<^item> \<open>AwaitAutoGuide bestSuggestion base64Image\<close>: \<open>captureAndAnalyze\<close> at line 167;
  \<^item> \<open>AwaitGuide suggestion lastImage\<close>: \<open>handleSelectSuggestion\<close> at line 216.
\<close>

datatype pending =
    AwaitAnalyze bool AppState string
  | AwaitAutoGuide AutomationSuggestion string
  | AwaitGuide AutomationSuggestion string

text \<open>
  \<open>captureAndAnalyze\<close>, lines 126 to 156: up to the call of \<open>analyzeScreenImage\<close>. The
  result is the new session and the call that was issued, if one was.
\<close>

definition captureAndAnalyze :: "bool \<Rightarrow> dom \<Rightarrow> session \<Rightarrow> session \<times> pending option" where
  "captureAndAnalyze isAuto d s =
     (if \<not> refs_current d then (s, None)
      else if isAnalyzing s then (s, None)
      else
        (let s1 = s\<lparr>isAnalyzing := True\<rparr>;
             s2 = (if \<not> isAuto then s1\<lparr>appState := ANALYZING\<rparr> else s1)
         in if \<not> context_2d d then (s2\<lparr>isAnalyzing := False\<rparr>, None)
            else (s2\<lparr>lastImage := Some (toDataURL d)\<rparr>,
                  Some (AwaitAnalyze isAuto (appState s) (toDataURL d)))))"

text \<open>
  Lines 157 to 195, when \<open>analyzeScreenImage\<close> has settled with \<open>res\<close>. The \<open>finally\<close>
  block runs when the function ends: at once, unless the manual flow goes on to await
  \<open>generateGuideForSuggestion\<close>.
\<close>

definition analyze_settled ::
  "bool \<Rightarrow> AppState \<Rightarrow> string \<Rightarrow> exn + AutomationSuggestion list \<Rightarrow> session
     \<Rightarrow> session \<times> pending option" where
  "analyze_settled isAuto capturedState base64Image res s =
     (case res of
        Inl err \<Rightarrow>
          (let s1 = (if \<not> isAuto
                     then s\<lparr>errorMsg := Some ''AI Analysis failed. Please try again.'',
                            appState := RECORDING\<rparr>
                     else s)
           in (s1\<lparr>isAnalyzing := False\<rparr>, None))
      | Inr results \<Rightarrow>
          (let s1 = s\<lparr>suggestions := results\<rparr>
           in if \<not> isAuto then
                (case results of
                   bestSuggestion # _ \<Rightarrow>
                     (s1\<lparr>appState := GUIDE_LOADING\<rparr>,
                      Some (AwaitAutoGuide bestSuggestion base64Image))
                 | [] \<Rightarrow> (s1\<lparr>appState := SUGGESTING, isAnalyzing := False\<rparr>, None))
              else
                (let s2 = (if length results > 0 \<and>
                              (capturedState = RECORDING \<or> capturedState = SUGGESTING)
                           then s1\<lparr>appState := SUGGESTING\<rparr> else s1)
                 in (s2\<lparr>isAnalyzing := False\<rparr>, None))))"

text \<open>
  Lines 167 to 175 and the \<open>finally\<close> block, when \<open>generateGuideForSuggestion\<close> has
  settled with \<open>res\<close> in the manual flow.
\<close>

definition autoGuide_settled ::
  "exn + DetailedGuide \<Rightarrow> save_env \<Rightarrow> session \<times> storage \<Rightarrow> session \<times> storage" where
  "autoGuide_settled res env = (\<lambda>(s, st).
     (case res of
        Inr guide \<Rightarrow>
          (s\<lparr>selectedGuide := Some guide, appState := VIEWING_GUIDE, isAnalyzing := False\<rparr>,
           saveGuideToHistory env guide st)
      | Inl guideError \<Rightarrow>
          (s\<lparr>appState := SUGGESTING,
             errorMsg := Some ''Could not auto-generate guide. Please select a suggestion from the list.'',
             isAnalyzing := False\<rparr>, st)))"

subsection \<open>handleSelectSuggestion\<close>

text \<open>Lines 211 to 216: up to the call of \<open>generateGuideForSuggestion\<close>.\<close>

definition handleSelectSuggestion ::
  "AutomationSuggestion \<Rightarrow> session \<Rightarrow> session \<times> pending option" where
  "handleSelectSuggestion suggestion s =
     (case lastImage s of
        None \<Rightarrow> (s, None)
      | Some img \<Rightarrow>
          if img = [] then (s, None)
          else (s\<lparr>appState := GUIDE_LOADING\<rparr>, Some (AwaitGuide suggestion img)))"

text \<open>Lines 217 to 224, when the call has settled with \<open>res\<close>.\<close>

definition selectGuide_settled ::
  "exn + DetailedGuide \<Rightarrow> save_env \<Rightarrow> session \<times> storage \<Rightarrow> session \<times> storage" where
  "selectGuide_settled res env = (\<lambda>(s, st).
     (case res of
        Inr guide \<Rightarrow>
          (s\<lparr>selectedGuide := Some guide, appState := VIEWING_GUIDE\<rparr>,
           saveGuideToHistory env guide st)
      | Inl err \<Rightarrow>
          (s\<lparr>errorMsg := Some ''Could not generate guide. Please try again.'',
             appState := SUGGESTING\<rparr>, st)))"

section \<open>The running application\<close>

text \<open>
  The component's state, the calls awaiting their promise, and the history store.
  Each event runs one handler, or the continuation of one suspended handler, to its
  next \<open>await\<close> or to its end, on the state as it is then: the calls of the \<open>useState\<close>
  setters within one such run write distinct cells, and handlers are re-created on
  every render with the cells they read, so each run reads what the run before it
  wrote (the render between two runs is taken to have happened). What a continuation
  reads after its \<open>await\<close> from the render it was created in is carried by the awaiting
  call.
\<close>

record system =
  sess :: session
  calls :: "pending list"
  store :: storage

definition boot :: "storage \<Rightarrow> system" where
  "boot st = \<lparr>sess = initial_session, calls = [], store = st\<rparr>"

datatype event =
    ShareClicked bool acquire
  | StopClicked
  | TrackEnded
  | ResetClicked
  | AutoClicked
  | ScanClicked dom
  | IntervalTick dom
  | SuggestionClicked AutomationSuggestion
  | BackClicked
  | HistoryClicked
  | HistoryGuideClicked DetailedGuide
  | ClearClicked
  | AnalyzeSettled nat "exn + AutomationSuggestion list"
  | GuideSettled nat "exn + DetailedGuide" save_env

definition issue :: "session \<times> pending option \<Rightarrow> system \<Rightarrow> system" where
  "issue r sys =
     sys\<lparr>sess := fst r,
         calls := calls sys @ (case snd r of None \<Rightarrow> [] | Some c \<Rightarrow> [c])\<rparr>"

definition settle :: "nat \<Rightarrow> system \<Rightarrow> system" where
  "settle i sys = sys\<lparr>calls := take i (calls sys) @ drop (Suc i) (calls sys)\<rparr>"

text \<open>
  The interval's callback runs only while the effect of lines 199 to 208 has an interval
  installed; \<open>track.onended\<close> calls the current \<open>handleStopStream\<close> through
  \<open>stopStreamRef\<close> (lines 103 and 120 to 123). A settling event names the awaiting call by
  its position and is ignored when no call of its kind is there.
\<close>

fun fire :: "event \<Rightarrow> system \<Rightarrow> system" where
  "fire (ShareClicked autoStart outcome) sys =
     sys\<lparr>sess := startScreenShare autoStart outcome (sess sys)\<rparr>"
| "fire StopClicked sys = sys\<lparr>sess := fst (handleStopStream (sess sys))\<rparr>"
| "fire TrackEnded sys = sys\<lparr>sess := fst (handleStopStream (sess sys))\<rparr>"
| "fire ResetClicked sys = sys\<lparr>sess := fst (handleReset (sess sys))\<rparr>"
| "fire AutoClicked sys = sys\<lparr>sess := toggleAutoScan (sess sys)\<rparr>"
| "fire (ScanClicked d) sys = issue (captureAndAnalyze False d (sess sys)) sys"
| "fire (IntervalTick d) sys =
     (if autoScanInterval (sess sys) \<noteq> None
      then issue (captureAndAnalyze True d (sess sys)) sys else sys)"
| "fire (SuggestionClicked suggestion) sys = issue (handleSelectSuggestion suggestion (sess sys)) sys"
| "fire BackClicked sys = sys\<lparr>sess := handleBackToSuggestions (sess sys)\<rparr>"
| "fire HistoryClicked sys = sys\<lparr>sess := handleToggleHistory (sess sys)\<rparr>"
| "fire (HistoryGuideClicked guide) sys = sys\<lparr>sess := handleSelectHistoryGuide guide (sess sys)\<rparr>"
| "fire ClearClicked sys = sys\<lparr>store := clearHistory (store sys)\<rparr>"
| "fire (AnalyzeSettled i res) sys =
     (if i < length (calls sys) then
        (case calls sys ! i of
           AwaitAnalyze isAuto capturedState base64Image \<Rightarrow>
             issue (analyze_settled isAuto capturedState base64Image res (sess sys)) (settle i sys)
         | _ \<Rightarrow> sys)
      else sys)"
| "fire (GuideSettled i res env) sys =
     (if i < length (calls sys) then
        (case calls sys ! i of
           AwaitAutoGuide bestSuggestion base64Image \<Rightarrow>
             (let r = autoGuide_settled res env (sess sys, store sys)
              in (settle i sys)\<lparr>sess := fst r, store := snd r\<rparr>)
         | AwaitGuide suggestion img \<Rightarrow>
             (let r = selectGuide_settled res env (sess sys, store sys)
              in (settle i sys)\<lparr>sess := fst r, store := snd r\<rparr>)
         | _ \<Rightarrow> sys)
      else sys)"

definition run :: "event list \<Rightarrow> system \<Rightarrow> system" where
  "run es sys = fold fire es sys"

text \<open>
  An awaiting call belongs to a scan (a run of \<open>captureAndAnalyze\<close>) or to a selection
  (a run of \<open>handleSelectSuggestion\<close>).
\<close>

fun is_scan :: "pending \<Rightarrow> bool" where
  "is_scan (AwaitAnalyze isAuto capturedState base64Image) = True"
| "is_scan (AwaitAutoGuide bestSuggestion base64Image) = True"
| "is_scan (AwaitGuide suggestion img) = False"

definition scans_outstanding :: "system \<Rightarrow> nat" where
  "scans_outstanding sys = length (filter is_scan (calls sys))"

text \<open>
  What the rendered page offers (the JSX of lines 248 to 478): the buttons that exist and
  are enabled in a state, the suggestion cards that are shown, the armed interval, and
  the calls that can settle. A trace is feasible when each of its events is offered in
  the state it arrives in.
\<close>

definition video_mounted :: "session \<Rightarrow> bool" where
  "video_mounted s \<longleftrightarrow> appState s \<noteq> IDLE \<and> stream s \<noteq> None"

fun offered :: "event \<Rightarrow> system \<Rightarrow> bool" where
  "offered (ShareClicked autoStart outcome) sys = (appState (sess sys) = IDLE)"
| "offered StopClicked sys = video_mounted (sess sys)"
| "offered TrackEnded sys = (stream (sess sys) \<noteq> None)"
| "offered ResetClicked sys = (appState (sess sys) \<noteq> IDLE \<and> stream (sess sys) = None)"
| "offered AutoClicked sys = video_mounted (sess sys)"
| "offered (ScanClicked d) sys =
     (video_mounted (sess sys) \<and> refs_current d \<and>
      \<not> (appState (sess sys) = ANALYZING \<or> appState (sess sys) = GUIDE_LOADING \<or>
         isAnalyzing (sess sys)))"
| "offered (IntervalTick d) sys = (autoScanInterval (sess sys) \<noteq> None \<and> refs_current d)"
| "offered (SuggestionClicked suggestion) sys =
     (suggestion \<in> set (suggestions (sess sys)) \<and>
      (appState (sess sys) = SUGGESTING \<or> appState (sess sys) = GUIDE_LOADING \<or>
       (appState (sess sys) = VIEWING_GUIDE \<and> selectedGuide (sess sys) = None)))"
| "offered BackClicked sys =
     (appState (sess sys) = VIEWING_GUIDE \<and> selectedGuide (sess sys) \<noteq> None)"
| "offered HistoryClicked sys = True"
| "offered (HistoryGuideClicked guide) sys = (appState (sess sys) = HISTORY)"
| "offered ClearClicked sys = (appState (sess sys) = HISTORY)"
| "offered (AnalyzeSettled i res) sys =
     (i < length (calls sys) \<and>
      (case calls sys ! i of AwaitAnalyze isAuto capturedState base64Image \<Rightarrow> True | _ \<Rightarrow> False))"
| "offered (GuideSettled i res env) sys =
     (i < length (calls sys) \<and>
      (case calls sys ! i of AwaitAnalyze isAuto capturedState base64Image \<Rightarrow> False | _ \<Rightarrow> True))"

fun feasible :: "event list \<Rightarrow> system \<Rightarrow> bool" where
  "feasible [] sys = True"
| "feasible (e # es) sys = (offered e sys \<and> feasible es (fire e sys))"

section \<open>Predicates and sample data used in the statements\<close>

text \<open>The stored item is absent or an array: what the store's own writes leave behind.\<close>

definition readable :: "storage \<Rightarrow> bool" where
  "readable st = (case st of NoItem \<Rightarrow> True | Item (JArr items) \<Rightarrow> True | _ \<Rightarrow> False)"



text \<open>
  The scan gate: the in-flight flag is set exactly while one run of
  \<open>captureAndAnalyze\<close> is suspended.
\<close>

definition gate_inv :: "system \<Rightarrow> bool" where
  "gate_inv sys \<longleftrightarrow> scans_outstanding sys = (if isAnalyzing (sess sys) then 1 else 0)"

text \<open>
  A guide is selected whenever the guide view is the current state, or the state that
  closing the history will restore.
\<close>

definition guide_shown :: "system \<Rightarrow> bool" where
  "guide_shown sys \<longleftrightarrow>
     (appState (sess sys) = VIEWING_GUIDE \<longrightarrow> selectedGuide (sess sys) \<noteq> None) \<and>
     (appState (sess sys) = HISTORY \<and> previousState (sess sys) = VIEWING_GUIDE \<longrightarrow>
        selectedGuide (sess sys) \<noteq> None)"

definition frame0 :: dom where
  "frame0 =
     \<lparr>refs_current = True, context_2d = True,
      toDataURL = ''data:image/png;base64,iVBORw0KGgo=''\<rparr>"

definition scored :: "string \<Rightarrow> int \<Rightarrow> AutomationSuggestion" where
  "scored i n =
     JObj [(''id'', JStr i), (''title'', JStr ''Copy rows to the form''),
           (''estimatedTimeSavings'', JStr ''2 hours per week''),
           (''tools'', JArr [JStr ''Python'']),
           (''description'', JStr ''Fill the form from the sheet''),
           (''relevanceScore'', JNum n)]"

definition guide0 :: DetailedGuide where
  "guide0 =
     JObj [(''title'', JStr ''Copy rows to the form''),
           (''prerequisites'', JArr [JStr ''Python 3'']),
           (''steps'', JArr
              [JObj [(''stepNumber'', JNum 1), (''instruction'', JStr ''Open the sheet''),
                     (''tip'', JStr ''Keep the header row'')],
               JObj [(''stepNumber'', JNum 2), (''instruction'', JStr ''Run the script'')]]),
           (''suggestionId'', JStr ''b'')]"

definition env0 :: save_env where
  "env0 =
     \<lparr>randomUUID = ''0b6f1c1e-8a3c-4c55-9d0b-2f7a51c0e9aa'', now = 1700000000000,
      setItem_throws = False\<rparr>"

definition numbered :: "nat \<Rightarrow> save_env \<times> DetailedGuide" where
  "numbered i = (env0\<lparr>now := int i\<rparr>, JObj [(''title'', JNum (int i))])"








lemmas handler_defs =
  startScreenShare_def handleStopStream_def handleReset_def toggleAutoScan_def
  captureAndAnalyze_def handleSelectSuggestion_def handleBackToSuggestions_def
  handleToggleHistory_def handleSelectHistoryGuide_def analyze_settled_def
  autoGuide_settled_def selectGuide_settled_def issue_def settle_def

section \<open>Invariants of the running application\<close>

lemma count_settle:
  assumes "i < length cs"
  shows "length (filter P (take i cs @ drop (Suc i) cs)) + (if P (cs ! i) then 1 else 0)
         = length (filter P cs)"
proof -
  have "cs = take i cs @ cs ! i # drop (Suc i) cs"
    using assms by (rule id_take_nth_drop)
  then have "filter P cs = filter P (take i cs) @ filter P (cs ! i # drop (Suc i) cs)"
    by (metis filter_append)
  then show ?thesis by simp
qed

lemma gate_inv_sync:
  "isAnalyzing (sess sys') = isAnalyzing (sess sys) \<Longrightarrow> calls sys' = calls sys \<Longrightarrow>
   gate_inv sys \<Longrightarrow> gate_inv sys'"
  by (simp add: gate_inv_def scans_outstanding_def)

lemma gate_inv_scan:
  "gate_inv sys \<Longrightarrow> gate_inv (issue (captureAndAnalyze isAuto d (sess sys)) sys)"
  by (simp add: gate_inv_def scans_outstanding_def issue_def captureAndAnalyze_def Let_def)

lemma gate_inv_select:
  "gate_inv sys \<Longrightarrow> gate_inv (issue (handleSelectSuggestion suggestion (sess sys)) sys)"
  by (simp add: gate_inv_def scans_outstanding_def issue_def handleSelectSuggestion_def
      split: option.splits)

lemma gate_inv_analyze:
  assumes "gate_inv sys" "i < length (calls sys)" "calls sys ! i = AwaitAnalyze isAuto cap img"
  shows "gate_inv (issue (analyze_settled isAuto cap img res (sess sys)) (settle i sys))"
proof -
  have "length (filter is_scan (take i (calls sys) @ drop (Suc i) (calls sys))) + 1
        = length (filter is_scan (calls sys))"
    using count_settle [OF assms(2), of is_scan] assms(3) by simp
  with assms(1) show ?thesis
    by (auto simp add: gate_inv_def scans_outstanding_def issue_def settle_def
        analyze_settled_def Let_def split: sum.splits list.splits if_splits)
qed

lemma gate_inv_guide:
  assumes "gate_inv sys" "i < length (calls sys)"
  shows "gate_inv (fire (GuideSettled i res env) sys)"
proof (cases "calls sys ! i")
  case (AwaitAnalyze isAuto cap img)
  with assms show ?thesis by simp
next
  case (AwaitAutoGuide best img)
  have "length (filter is_scan (take i (calls sys) @ drop (Suc i) (calls sys))) + 1
        = length (filter is_scan (calls sys))"
    using count_settle [OF assms(2), of is_scan] AwaitAutoGuide by simp
  with assms AwaitAutoGuide show ?thesis
    by (auto simp add: gate_inv_def scans_outstanding_def settle_def
        autoGuide_settled_def Let_def split: sum.splits if_splits)
next
  case (AwaitGuide chosen img)
  have "length (filter is_scan (take i (calls sys) @ drop (Suc i) (calls sys)))
        = length (filter is_scan (calls sys))"
    using count_settle [OF assms(2), of is_scan] AwaitGuide by simp
  with assms AwaitGuide show ?thesis
    by (auto simp add: gate_inv_def scans_outstanding_def settle_def
        selectGuide_settled_def Let_def split: sum.splits if_splits)
qed

lemma gate_inv_fire: "gate_inv sys \<Longrightarrow> gate_inv (fire e sys)"
proof (cases e)
  case (AnalyzeSettled i res)
  assume "gate_inv sys"
  then show ?thesis using AnalyzeSettled
    by (auto simp add: gate_inv_analyze split: pending.splits)
next
  case (GuideSettled i res env)
  assume "gate_inv sys"
  then show ?thesis using GuideSettled gate_inv_guide [of sys i res env]
    by (cases "i < length (calls sys)") simp_all
qed (auto simp add: gate_inv_scan gate_inv_select
       elim!: gate_inv_sync [rotated 2]
       simp add: startScreenShare_def handleStopStream_def handleReset_def toggleAutoScan_def
         handleBackToSuggestions_def handleToggleHistory_def handleSelectHistoryGuide_def
         Let_def split: acquire.splits)

lemma gate_inv_run: "gate_inv sys \<Longrightarrow> gate_inv (run es sys)"
  unfolding run_def by (induction es arbitrary: sys) (simp_all add: gate_inv_fire)

lemma gate_inv_boot: "gate_inv (boot st)"
  by (simp add: gate_inv_def scans_outstanding_def boot_def initial_session_def)

lemma guide_shown_fire: "guide_shown sys \<Longrightarrow> guide_shown (fire e sys)"
  by (cases e)
    (auto simp add: guide_shown_def handler_defs Let_def hasContent_def
      split: acquire.splits option.splits if_splits pending.splits sum.splits list.splits)

lemma guide_shown_run: "guide_shown sys \<Longrightarrow> guide_shown (run es sys)"
  unfolding run_def by (induction es arbitrary: sys) (simp_all add: guide_shown_fire)

lemma guide_shown_boot: "guide_shown (boot st)"
  by (simp add: guide_shown_def boot_def initial_session_def)

section \<open>The scan gate and the auto-scan timer\<close>

text \<open>
  Claim C1, as amended. At most one run of \<open>captureAndAnalyze\<close> (a scan: the analyze call
  and, in the manual flow, the elaboration chained to it) is outstanding at any time:
  \<^item> a scan request, manual or scheduled, that arrives while the in-flight flag is set
    changes nothing and issues no call;
  \<^item> a scan request that issues the analyze call found the flag clear and has set it;
  \<^item> the flag is cleared when the scan ends: when the analyze call fails, when it
    succeeds and no elaboration follows, and when the chained elaboration settles,
    with a guide or with an error;
  \<^item> in every state the application reaches, by any sequence of events from any store,
    the number of outstanding scans is one when the flag is set and zero when it is
    clear.
  The elaboration started by selecting a suggestion is outside the gate:
  \<open>handleSelectSuggestion\<close> reads only \<open>lastImage\<close>, and issues its call whenever a
  snapshot is there, whatever the flag says.
\<close>

theorem scan_gate:
  "(isAnalyzing s \<longrightarrow> captureAndAnalyze isAuto d s = (s, None)) \<and>
   (snd (captureAndAnalyze isAuto d s) \<noteq> None \<longrightarrow>
      \<not> isAnalyzing s \<and> isAnalyzing (fst (captureAndAnalyze isAuto d s))) \<and>
   \<not> isAnalyzing (fst (analyze_settled isAuto cap img (Inl err) s)) \<and>
   (snd (analyze_settled isAuto cap img (Inr results) s) = None \<longrightarrow>
      \<not> isAnalyzing (fst (analyze_settled isAuto cap img (Inr results) s))) \<and>
   \<not> isAnalyzing (fst (autoGuide_settled res env (s, st))) \<and>
   scans_outstanding (run es (boot st0)) =
     (if isAnalyzing (sess (run es (boot st0))) then 1 else 0) \<and>
   scans_outstanding (run es (boot st0)) \<le> 1 \<and>
   (lastImage s = Some img \<and> img \<noteq> [] \<longrightarrow>
      handleSelectSuggestion suggestion s =
        (s\<lparr>appState := GUIDE_LOADING\<rparr>, Some (AwaitGuide suggestion img)))"
proof -
  have gate: "gate_inv (run es (boot st0))"
    by (rule gate_inv_run) (rule gate_inv_boot)
  have a: "isAnalyzing s \<longrightarrow> captureAndAnalyze isAuto d s = (s, None)"
    by (simp add: captureAndAnalyze_def)
  have b: "snd (captureAndAnalyze isAuto d s) \<noteq> None \<longrightarrow>
      \<not> isAnalyzing s \<and> isAnalyzing (fst (captureAndAnalyze isAuto d s))"
    by (simp add: captureAndAnalyze_def Let_def)
  have c: "\<not> isAnalyzing (fst (analyze_settled isAuto cap img (Inl err) s))"
    by (simp add: analyze_settled_def Let_def)
  have d: "snd (analyze_settled isAuto cap img (Inr results) s) = None \<longrightarrow>
      \<not> isAnalyzing (fst (analyze_settled isAuto cap img (Inr results) s))"
    by (simp add: analyze_settled_def Let_def split: list.splits)
  have e: "\<not> isAnalyzing (fst (autoGuide_settled res env (s, st)))"
    by (simp add: autoGuide_settled_def split: sum.splits)
  have f: "scans_outstanding (run es (boot st0)) =
     (if isAnalyzing (sess (run es (boot st0))) then 1 else 0)"
    using gate by (simp add: gate_inv_def)
  have g: "lastImage s = Some img \<and> img \<noteq> [] \<longrightarrow>
      handleSelectSuggestion suggestion s =
        (s\<lparr>appState := GUIDE_LOADING\<rparr>, Some (AwaitGuide suggestion img))"
    by (simp add: handleSelectSuggestion_def)
  from f have h: "scans_outstanding (run es (boot st0)) \<le> 1" by simp
  from a b c d e f h g show ?thesis by blast
qed

text \<open>
  The theorem at a session whose flag is set: the scheduled request is dropped, an
  analyze call settling with no suggestion clears the flag, a selection still issues
  its call, and one scan is outstanding after a manual scan request.
\<close>

theorem scan_gate_witness:
  "isAnalyzing (initial_session\<lparr>isAnalyzing := True, lastImage := Some ''data:,''\<rparr>) \<and>
   captureAndAnalyze True frame0 (initial_session\<lparr>isAnalyzing := True, lastImage := Some ''data:,''\<rparr>)
     = (initial_session\<lparr>isAnalyzing := True, lastImage := Some ''data:,''\<rparr>, None) \<and>
   snd (analyze_settled True RECORDING ''data:,'' (Inr [])
          (initial_session\<lparr>isAnalyzing := True, lastImage := Some ''data:,''\<rparr>)) = None \<and>
   \<not> isAnalyzing (fst (analyze_settled True RECORDING ''data:,'' (Inr [])
          (initial_session\<lparr>isAnalyzing := True, lastImage := Some ''data:,''\<rparr>))) \<and>
   handleSelectSuggestion (scored ''a'' 90)
       (initial_session\<lparr>isAnalyzing := True, lastImage := Some ''data:,''\<rparr>) =
     (initial_session\<lparr>isAnalyzing := True, lastImage := Some ''data:,'', appState := GUIDE_LOADING\<rparr>,
      Some (AwaitGuide (scored ''a'' 90) ''data:,'')) \<and>
   scans_outstanding (run [ShareClicked False (Acquired 1), ScanClicked frame0] (boot NoItem)) = 1"
  using scan_gate [of "initial_session\<lparr>isAnalyzing := True, lastImage := Some ''data:,''\<rparr>"
      True frame0 RECORDING "''data:,''" "Error ''x''" "[]" "Inl (Error ''x'')" env0 NoItem
      "[ShareClicked False (Acquired 1), ScanClicked frame0]" NoItem "scored ''a'' 90"]
  by (simp add: initial_session_def analyze_settled_def run_def boot_def frame0_def
      startScreenShare_def captureAndAnalyze_def issue_def Let_def)

text \<open>
  The claim as stated fails. With auto-scan on, the first tick's analysis returns one
  suggestion; the next tick's analyze call is in flight, the flag is set, and the user
  selects the suggestion shown: the elaboration is issued, and two calls are outstanding.
  Every event of the trace is offered by the page in the state it arrives in.
\<close>

theorem selection_overlaps_scan:
  "feasible
     [ShareClicked True (Acquired 1), IntervalTick frame0,
      AnalyzeSettled 0 (Inr [scored ''a'' 90]), IntervalTick frame0,
      SuggestionClicked (scored ''a'' 90)] (boot NoItem) \<and>
   isAnalyzing (sess (run
     [ShareClicked True (Acquired 1), IntervalTick frame0,
      AnalyzeSettled 0 (Inr [scored ''a'' 90]), IntervalTick frame0,
      SuggestionClicked (scored ''a'' 90)] (boot NoItem))) \<and>
   calls (run
     [ShareClicked True (Acquired 1), IntervalTick frame0,
      AnalyzeSettled 0 (Inr [scored ''a'' 90]), IntervalTick frame0,
      SuggestionClicked (scored ''a'' 90)] (boot NoItem)) =
     [AwaitAnalyze True SUGGESTING (toDataURL frame0),
      AwaitGuide (scored ''a'' 90) (toDataURL frame0)]"
  by (simp add: run_def boot_def initial_session_def frame0_def handler_defs
      autoScanInterval_def video_mounted_def Let_def)

text \<open>
  Claim C2. The effect installs the auto-scan interval exactly when \<open>isAutoScan\<close> is set,
  a stream is held and the state is \<open>RECORDING\<close> or \<open>SUGGESTING\<close>; its period is the
  constant 5000 milliseconds; where no interval is installed a tick does nothing, and
  none is installed in the states \<open>ANALYZING\<close>, \<open>GUIDE_LOADING\<close>, \<open>VIEWING_GUIDE\<close> and
  \<open>HISTORY\<close>.
\<close>

theorem autoScan_armed_only_when_passive:
  "(autoScanInterval s \<noteq> None \<longleftrightarrow>
      isAutoScan s \<and> stream s \<noteq> None \<and> (appState s = RECORDING \<or> appState s = SUGGESTING)) \<and>
   (\<forall>ms. autoScanInterval s = Some ms \<longrightarrow> ms = 5000) \<and>
   (autoScanInterval (sess sys) = None \<longrightarrow> fire (IntervalTick d) sys = sys) \<and>
   (appState (sess sys) \<in> {ANALYZING, GUIDE_LOADING, VIEWING_GUIDE, HISTORY} \<longrightarrow>
      autoScanInterval (sess sys) = None \<and> fire (IntervalTick d) sys = sys)"
  by (auto simp add: autoScanInterval_def)

text \<open>
  The theorem at a session that is armed while \<open>SUGGESTING\<close>, and at an application
  viewing a guide, where the tick leaves everything as it is.
\<close>

theorem autoScan_armed_only_when_passive_witness:
  "autoScanInterval (initial_session\<lparr>appState := SUGGESTING, stream := Some 1, isAutoScan := True\<rparr>)
     = Some 5000 \<and>
   appState (sess ((boot NoItem)\<lparr>sess := initial_session\<lparr>appState := VIEWING_GUIDE, stream := Some 1,
       isAutoScan := True\<rparr>\<rparr>)) \<in> {ANALYZING, GUIDE_LOADING, VIEWING_GUIDE, HISTORY} \<and>
   fire (IntervalTick frame0)
     ((boot NoItem)\<lparr>sess := initial_session\<lparr>appState := VIEWING_GUIDE, stream := Some 1,
       isAutoScan := True\<rparr>\<rparr>) =
     (boot NoItem)\<lparr>sess := initial_session\<lparr>appState := VIEWING_GUIDE, stream := Some 1,
       isAutoScan := True\<rparr>\<rparr>"
  using autoScan_armed_only_when_passive
    [of "initial_session\<lparr>appState := SUGGESTING, stream := Some 1, isAutoScan := True\<rparr>"
        "(boot NoItem)\<lparr>sess := initial_session\<lparr>appState := VIEWING_GUIDE, stream := Some 1,
           isAutoScan := True\<rparr>\<rparr>" frame0]
  by (auto simp add: initial_session_def)

section \<open>Stopping the capture\<close>

text \<open>
  Claim C3. For every session, \<open>handleStopStream\<close> stops the tracks of the stream that
  is held and sets \<open>stream\<close> to \<open>null\<close>, sets \<open>isAutoScan\<close> to false, and keeps the
  suggestions, the selected guide and the last snapshot. When suggestions exist, a guide
  is selected or the history is open, stopping from \<open>RECORDING\<close> or \<open>ANALYZING\<close> leads to
  \<open>SUGGESTING\<close>; with no suggestion, no selected guide and the history closed it leads to
  \<open>IDLE\<close>. The end of the track from outside runs the same handler as the stop button.
\<close>

theorem stop_preserves_results:
  "stream (fst (handleStopStream s)) = None \<and> snd (handleStopStream s) = stream s \<and>
   \<not> isAutoScan (fst (handleStopStream s)) \<and>
   suggestions (fst (handleStopStream s)) = suggestions s \<and>
   selectedGuide (fst (handleStopStream s)) = selectedGuide s \<and>
   lastImage (fst (handleStopStream s)) = lastImage s \<and>
   ((suggestions s \<noteq> [] \<or> selectedGuide s \<noteq> None \<or> appState s = HISTORY) \<longrightarrow>
      (appState s = RECORDING \<or> appState s = ANALYZING) \<longrightarrow>
      appState (fst (handleStopStream s)) = SUGGESTING) \<and>
   (suggestions s = [] \<and> selectedGuide s = None \<and> appState s \<noteq> HISTORY \<longrightarrow>
      appState (fst (handleStopStream s)) = IDLE) \<and>
   fire TrackEnded sys = fire StopClicked sys"
  by (simp add: handleStopStream_def hasContent_def Let_def)

text \<open>
  The theorem at a recording session with one suggestion, which lands in \<open>SUGGESTING\<close>,
  and at an analyzing session with nothing to keep, which lands in \<open>IDLE\<close>.
\<close>

theorem stop_preserves_results_witness:
  "appState (fst (handleStopStream
      (initial_session\<lparr>appState := RECORDING, stream := Some 1, suggestions := [scored ''a'' 90]\<rparr>)))
     = SUGGESTING \<and>
   appState (fst (handleStopStream
      (initial_session\<lparr>appState := ANALYZING, stream := Some 1\<rparr>))) = IDLE"
  using stop_preserves_results
      [of "initial_session\<lparr>appState := RECORDING, stream := Some 1, suggestions := [scored ''a'' 90]\<rparr>"]
    stop_preserves_results [of "initial_session\<lparr>appState := ANALYZING, stream := Some 1\<rparr>"]
  by (simp add: initial_session_def)

section \<open>Ranking of suggestions and the manual flow\<close>

lemma is_suggestion_scored: "is_suggestion e \<Longrightarrow> relevanceScore e \<noteq> None"
  by (simp add: is_suggestion_def)

lemma sort_key_short: "length xs \<le> 1 \<Longrightarrow> sort_key f xs = xs"
  by (cases xs) (simp_all add: Suc_le_eq)

lemma sort_by_relevance_scored:
  assumes "list_all is_suggestion xs"
  shows "sort_by_relevance engine_sort xs = Some (sort_key (\<lambda>e. - the (relevanceScore e)) xs)"
proof -
  from assms have "list_all (\<lambda>e. relevanceScore e \<noteq> None) xs"
    by (auto simp add: list_all_iff dest: is_suggestion_scored)
  then show ?thesis
    by (simp add: sort_by_relevance_def sort_key_short)
qed

lemma sort_key_descending:
  "sorted_wrt (\<lambda>a b. the (relevanceScore a) \<ge> the (relevanceScore b))
     (sort_key (\<lambda>e. - the (relevanceScore e)) xs)"
proof -
  have "sorted (map (\<lambda>e. - the (relevanceScore e)) (sort_key (\<lambda>e. - the (relevanceScore e)) xs))"
    by (rule sorted_sort_key)
  then show ?thesis
    by (simp add: sorted_wrt_map)
qed

lemma sorted_wrt_hd_top:
  assumes "sorted_wrt (\<lambda>a b. the (relevanceScore a) \<ge> the (relevanceScore b)) ys" "x \<in> set ys"
  shows "the (relevanceScore x) \<le> the (relevanceScore (hd ys))"
  using assms by (cases ys) auto

text \<open>
  Claim C4. For every response that parses to an array of well-shaped suggestions,
  \<open>analyzeScreenImage\<close> returns the same suggestions sorted by \<open>relevanceScore\<close>,
  highest first; the manual flow stores that list and, when it is not empty, moves to
  \<open>GUIDE_LOADING\<close> and calls \<open>generateGuideForSuggestion\<close> for its first element, whose
  score no other suggestion of the response exceeds.
\<close>

theorem analyze_sorted_top_elaborated:
  assumes "list_all is_suggestion xs"
  shows "\<exists>ys. analyzeScreenImage engine_sort (Payload (JArr xs)) = Inr ys \<and>
           mset ys = mset xs \<and>
           sorted_wrt (\<lambda>a b. the (relevanceScore a) \<ge> the (relevanceScore b)) ys \<and>
           suggestions (fst (analyze_settled False cap img (Inr ys) s)) = ys \<and>
           (ys \<noteq> [] \<longrightarrow>
              appState (fst (analyze_settled False cap img (Inr ys) s)) = GUIDE_LOADING \<and>
              snd (analyze_settled False cap img (Inr ys) s) = Some (AwaitAutoGuide (hd ys) img) \<and>
              (\<forall>x \<in> set xs. the (relevanceScore x) \<le> the (relevanceScore (hd ys))))"
proof -
  define ys where "ys = sort_key (\<lambda>e. - the (relevanceScore e)) xs"
  have res: "analyzeScreenImage engine_sort (Payload (JArr xs)) = Inr ys"
    using sort_by_relevance_scored [OF assms, of engine_sort]
    by (simp add: analyzeScreenImage_def ys_def)
  have perm: "mset ys = mset xs"
    by (simp add: ys_def)
  have desc: "sorted_wrt (\<lambda>a b. the (relevanceScore a) \<ge> the (relevanceScore b)) ys"
    unfolding ys_def by (rule sort_key_descending)
  have stored: "suggestions (fst (analyze_settled False cap img (Inr ys) s)) = ys"
    by (simp add: analyze_settled_def Let_def split: list.splits)
  have top: "\<forall>x \<in> set xs. the (relevanceScore x) \<le> the (relevanceScore (hd ys))"
  proof
    fix x assume "x \<in> set xs"
    then have "x \<in> set ys" by (simp add: ys_def)
    with desc show "the (relevanceScore x) \<le> the (relevanceScore (hd ys))"
      by (rule sorted_wrt_hd_top)
  qed
  have elab: "ys \<noteq> [] \<longrightarrow>
      appState (fst (analyze_settled False cap img (Inr ys) s)) = GUIDE_LOADING \<and>
      snd (analyze_settled False cap img (Inr ys) s) = Some (AwaitAutoGuide (hd ys) img)"
    by (cases ys) (simp_all add: analyze_settled_def Let_def)
  from res perm desc stored top elab show ?thesis by blast
qed

text \<open>
  The theorem at the scores 40, 90, 70: the list is stored as 90, 70, 40 and the
  elaboration is called for the suggestion of score 90.
\<close>

theorem analyze_sorted_top_elaborated_witness:
  "list_all is_suggestion [scored ''a'' 40, scored ''b'' 90, scored ''c'' 70] \<and>
   analyzeScreenImage (\<lambda>xs. None) (Payload (JArr [scored ''a'' 40, scored ''b'' 90, scored ''c'' 70]))
     = Inr [scored ''b'' 90, scored ''c'' 70, scored ''a'' 40] \<and>
   suggestions (fst (analyze_settled False RECORDING (toDataURL frame0)
       (Inr [scored ''b'' 90, scored ''c'' 70, scored ''a'' 40]) initial_session))
     = [scored ''b'' 90, scored ''c'' 70, scored ''a'' 40] \<and>
   snd (analyze_settled False RECORDING (toDataURL frame0)
       (Inr [scored ''b'' 90, scored ''c'' 70, scored ''a'' 40]) initial_session)
     = Some (AwaitAutoGuide (scored ''b'' 90) (toDataURL frame0))"
proof -
  have shaped: "list_all is_suggestion [scored ''a'' 40, scored ''b'' 90, scored ''c'' 70]"
    by (simp add: is_suggestion_def is_string_def is_string_array_def relevanceScore_def scored_def)
  have sorted3: "analyzeScreenImage (\<lambda>xs. None)
      (Payload (JArr [scored ''a'' 40, scored ''b'' 90, scored ''c'' 70]))
     = Inr [scored ''b'' 90, scored ''c'' 70, scored ''a'' 40]"
    by (simp add: analyzeScreenImage_def sort_by_relevance_def relevanceScore_def scored_def)
  from analyze_sorted_top_elaborated [OF shaped, of "\<lambda>xs. None" RECORDING "toDataURL frame0"
      initial_session] sorted3 shaped
  show ?thesis by auto
qed










text \<open>
  Claim C6, as amended. \<open>analyzeScreenImage\<close> returns the empty list for a response
  whose text is absent or empty, whose text is not JSON, or whose JSON value is not an
  array; it raises for no response at all (only a rejected request is passed on). An
  array is not checked against the shape of a suggestion: with at most one element it
  is returned as it is.
\<close>

theorem analyze_tolerates_unusable_response:
  "(r = NoText \<or> r = Malformed \<or> (\<exists>v. r = Payload v \<and> (\<forall>xs. v \<noteq> JArr xs))
      \<longrightarrow> analyzeScreenImage engine_sort r = Inr []) \<and>
   ((\<forall>e. r \<noteq> RequestFailed e) \<longrightarrow> (\<exists>ys. analyzeScreenImage engine_sort r = Inr ys)) \<and>
   (length xs \<le> 1 \<longrightarrow> analyzeScreenImage engine_sort (Payload (JArr xs)) = Inr xs)"
  by (auto simp add: analyzeScreenImage_def sort_by_relevance_def
      split: reply.splits json.splits option.splits)

text \<open>
  The theorem at a response without text, at one that is not JSON, at an error object,
  and at the array \<open>[null]\<close>, which is returned.
\<close>

theorem analyze_tolerates_unusable_response_witness:
  "analyzeScreenImage (\<lambda>xs. None) NoText = Inr [] \<and>
   analyzeScreenImage (\<lambda>xs. None) Malformed = Inr [] \<and>
   analyzeScreenImage (\<lambda>xs. None) (Payload (JObj [(''error'', JStr ''quota'')])) = Inr [] \<and>
   analyzeScreenImage (\<lambda>xs. None) (Payload (JArr [JNull])) = Inr [JNull]"
  using analyze_tolerates_unusable_response [of NoText "\<lambda>xs. None" "[JNull]"]
    analyze_tolerates_unusable_response [of Malformed "\<lambda>xs. None" "[]"]
    analyze_tolerates_unusable_response
      [of "Payload (JObj [(''error'', JStr ''quota'')])" "\<lambda>xs. None" "[]"]
  by simp

text \<open>
  The claim as stated fails: the response \<open>[{}]\<close> does not have the shape of a suggestion
  array, and \<open>analyzeScreenImage\<close> returns its one element.
\<close>

theorem shape_is_not_checked:
  "\<not> is_suggestion_array (JArr [JObj []]) \<and>
   analyzeScreenImage (\<lambda>xs. None) (Payload (JArr [JObj []])) = Inr [JObj []]"
  by (simp add: is_suggestion_array_def is_suggestion_def is_string_def analyzeScreenImage_def
      sort_by_relevance_def)

section \<open>The history toggle\<close>

text \<open>
  Claim C7. Opening the history from a state other than \<open>HISTORY\<close> records exactly that
  state in \<open>previousState\<close> and closing it again returns to that state; closing restores
  \<open>previousState\<close> unless that is \<open>HISTORY\<close> itself, when the state becomes \<open>IDLE\<close>.
\<close>

theorem history_toggle_depth_one:
  "(appState s \<noteq> HISTORY \<longrightarrow>
      appState (handleToggleHistory s) = HISTORY \<and>
      previousState (handleToggleHistory s) = appState s \<and>
      appState (handleToggleHistory (handleToggleHistory s)) = appState s) \<and>
   (appState s = HISTORY \<longrightarrow>
      appState (handleToggleHistory s) =
        (if previousState s \<noteq> HISTORY then previousState s else IDLE))"
  by (simp add: handleToggleHistory_def)

text \<open>
  The theorem from \<open>SUGGESTING\<close> and from \<open>IDLE\<close>, to which opening and closing return, and
  at a history whose recorded state is \<open>HISTORY\<close>.
\<close>

theorem history_toggle_depth_one_witness:
  "appState (handleToggleHistory (handleToggleHistory (initial_session\<lparr>appState := SUGGESTING\<rparr>)))
     = SUGGESTING \<and>
   appState (handleToggleHistory (handleToggleHistory initial_session)) = IDLE \<and>
   previousState (handleToggleHistory (initial_session\<lparr>appState := SUGGESTING\<rparr>)) = SUGGESTING \<and>
   appState (handleToggleHistory (initial_session\<lparr>appState := HISTORY, previousState := HISTORY\<rparr>))
     = IDLE"
  using history_toggle_depth_one [of "initial_session\<lparr>appState := SUGGESTING\<rparr>"]
    history_toggle_depth_one [of initial_session]
    history_toggle_depth_one [of "initial_session\<lparr>appState := HISTORY, previousState := HISTORY\<rparr>"]
  by (simp add: initial_session_def)

section \<open>The history store\<close>

lemma records_save:
  "readable st \<Longrightarrow> \<not> setItem_throws env \<Longrightarrow>
   records (saveGuideToHistory env guide st) = take 50 (newItem env guide # records st)"
  by (auto simp add: readable_def saveGuideToHistory_def records_def getHistory_def Let_def
      split: storage.splits json.splits)

lemma readable_save: "readable st \<Longrightarrow> readable (saveGuideToHistory env guide st)"
  by (auto simp add: readable_def saveGuideToHistory_def Let_def split: storage.splits json.splits)

lemma records_save_bound:
  "length (records st) \<le> 50 \<Longrightarrow> length (records (saveGuideToHistory env guide st)) \<le> 50"
  by (auto simp add: saveGuideToHistory_def records_def getHistory_def Let_def
      split: storage.splits json.splits)

lemma save_all_Nil: "save_all [] st = st"
  by (simp add: save_all_def)

lemma save_all_snoc:
  "save_all (saves @ [(env, guide)]) st = saveGuideToHistory env guide (save_all saves st)"
  by (simp add: save_all_def)

lemma save_all_bound:
  "length (records st) \<le> 50 \<Longrightarrow> length (records (save_all saves st)) \<le> 50"
  by (induction saves rule: rev_induct) (auto simp add: save_all_Nil save_all_snoc records_save_bound)

lemma readable_save_all: "readable st \<Longrightarrow> readable (save_all saves st)"
  by (induction saves rule: rev_induct) (auto simp add: save_all_Nil save_all_snoc readable_save)

lemma take_Cons_take: "take n (x # take n xs) = take n (x # xs)"
  by (cases n) (simp_all add: min_def)

lemma records_save_all:
  assumes "list_all (\<lambda>(env, guide). \<not> setItem_throws env) saves"
  shows "records (save_all saves NoItem) =
           take 50 (rev (map (\<lambda>(env, guide). newItem env guide) saves))"
  using assms
proof (induction saves rule: rev_induct)
  case Nil
  show ?case by (simp add: save_all_Nil records_def getHistory_def)
next
  case (snoc a saves)
  obtain env guide where a: "a = (env, guide)" by (cases a)
  from snoc.prems a have ok: "\<not> setItem_throws env"
    and rest: "list_all (\<lambda>(env, guide). \<not> setItem_throws env) saves" by simp_all
  have "readable (save_all saves NoItem)"
    by (rule readable_save_all) (simp add: readable_def)
  then have "records (save_all (saves @ [a]) NoItem) =
      take 50 (newItem env guide # records (save_all saves NoItem))"
    using ok by (simp add: a save_all_snoc records_save)
  also have "\<dots> = take 50 (newItem env guide #
      take 50 (rev (map (\<lambda>(env, guide). newItem env guide) saves)))"
    using snoc.IH [OF rest] by simp
  also have "\<dots> = take 50 (newItem env guide # rev (map (\<lambda>(env, guide). newItem env guide) saves))"
    by (rule take_Cons_take)
  finally show ?case by (simp add: a)
qed

lemma take_rev_all_but_first:
  assumes "length xs = Suc n"
  shows "take n (rev xs) = rev (tl xs)"
proof -
  from assms obtain x xs' where xs: "xs = x # xs'" and n: "length xs' = n"
    by (cases xs) auto
  then show ?thesis by simp
qed

lemma store_fire:
  "store (fire e sys) = store sys \<or> store (fire e sys) = NoItem \<or>
   (\<exists>env guide. store (fire e sys) = saveGuideToHistory env guide (store sys))"
  by (cases e)
    (auto simp add: issue_def settle_def autoGuide_settled_def selectGuide_settled_def
      clearHistory_def Let_def split: pending.splits sum.splits)



lemma bound_fire:
  "length (records (store sys)) \<le> 50 \<Longrightarrow> length (records (store (fire e sys))) \<le> 50"
  using store_fire [of e sys]
  by (auto simp add: records_save_bound) (simp add: records_def getHistory_def)

lemma bound_run:
  "length (records (store sys)) \<le> 50 \<Longrightarrow> length (records (store (run es sys))) \<le> 50"
  unfolding run_def by (induction es arbitrary: sys) (simp_all add: bound_fire)

lemma store_boot: "store (boot st) = st"
  by (simp add: boot_def)

text \<open>
  Claim C8. Saves never take a store that holds at most 50 records beyond 50, and from
  the empty store every sequence of saves leaves at most 50; so does every run of the
  application on such a store. A save whose write
  \<open>localStorage\<close> accepts, on a store that is empty or holds an array, puts the new
  record first and keeps the first 50; so after any sequence of accepted saves from the
  empty store the records are the 50 most recent, most recent first, and after 51 of
  them exactly 50 records remain, all but the first one saved.
\<close>

theorem history_capacity:
  "(length (records st) \<le> 50 \<longrightarrow> length (records (save_all saves st)) \<le> 50) \<and>
   length (records (save_all saves NoItem)) \<le> 50 \<and>
   (length (records st) \<le> 50 \<longrightarrow> length (records (store (run es (boot st)))) \<le> 50) \<and>
   (readable st \<and> \<not> setItem_throws env \<longrightarrow>
      records (saveGuideToHistory env guide st) = take 50 (newItem env guide # records st)) \<and>
   (list_all (\<lambda>(env, guide). \<not> setItem_throws env) saves \<longrightarrow>
      records (save_all saves NoItem) =
        take 50 (rev (map (\<lambda>(env, guide). newItem env guide) saves))) \<and>
   (list_all (\<lambda>(env, guide). \<not> setItem_throws env) saves \<and> length saves = 51 \<longrightarrow>
      length (records (save_all saves NoItem)) = 50 \<and>
      records (save_all saves NoItem) =
        rev (map (\<lambda>(env, guide). newItem env guide) (tl saves)))"
proof -
  have a: "length (records st) \<le> 50 \<longrightarrow> length (records (save_all saves st)) \<le> 50"
    by (simp add: save_all_bound)
  have b: "length (records (save_all saves NoItem)) \<le> 50"
    by (rule save_all_bound) (simp add: records_def getHistory_def)
  have r: "length (records st) \<le> 50 \<longrightarrow> length (records (store (run es (boot st)))) \<le> 50"
    by (simp add: bound_run store_boot)
  have c: "readable st \<and> \<not> setItem_throws env \<longrightarrow>
      records (saveGuideToHistory env guide st) = take 50 (newItem env guide # records st)"
    by (simp add: records_save)
  have d: "list_all (\<lambda>(env, guide). \<not> setItem_throws env) saves \<longrightarrow>
      records (save_all saves NoItem) =
        take 50 (rev (map (\<lambda>(env, guide). newItem env guide) saves))"
    by (simp add: records_save_all)
  have e: "list_all (\<lambda>(env, guide). \<not> setItem_throws env) saves \<and> length saves = 51 \<longrightarrow>
      length (records (save_all saves NoItem)) = 50 \<and>
      records (save_all saves NoItem) =
        rev (map (\<lambda>(env, guide). newItem env guide) (tl saves))"
  proof
    assume h: "list_all (\<lambda>(env, guide). \<not> setItem_throws env) saves \<and> length saves = 51"
    then have len: "length (map (\<lambda>(env, guide). newItem env guide) saves) = Suc 50" by simp
    have "records (save_all saves NoItem) =
        take 50 (rev (map (\<lambda>(env, guide). newItem env guide) saves))"
      using h by (simp add: records_save_all)
    also have "\<dots> = rev (tl (map (\<lambda>(env, guide). newItem env guide) saves))"
      using len by (rule take_rev_all_but_first)
    finally have eq: "records (save_all saves NoItem) =
        rev (map (\<lambda>(env, guide). newItem env guide) (tl saves))"
      by (simp add: map_tl)
    with h show "length (records (save_all saves NoItem)) = 50 \<and>
      records (save_all saves NoItem) =
        rev (map (\<lambda>(env, guide). newItem env guide) (tl saves))" by simp
  qed
  from a b r c d e show ?thesis by blast
qed

text \<open>The theorem at 51 saves of numbered guides.\<close>

theorem history_capacity_witness:
  "length (map numbered [0..<51]) = 51 \<and>
   list_all (\<lambda>(env, guide). \<not> setItem_throws env) (map numbered [0..<51]) \<and>
   length (records (save_all (map numbered [0..<51]) NoItem)) = 50 \<and>
   records (save_all (map numbered [0..<51]) NoItem) =
     rev (map (\<lambda>(env, guide). newItem env guide) (tl (map numbered [0..<51])))"
proof -
  have ok: "list_all (\<lambda>(env, guide). \<not> setItem_throws env) (map numbered [0..<51])"
    by (simp add: list_all_iff numbered_def env0_def)
  have len: "length (map numbered [0..<51]) = 51" by simp
  from history_capacity [of NoItem "map numbered [0..<51]" "[]" env0 guide0] ok len
  show ?thesis by blast
qed









section \<open>What stopping the capture leaves alone\<close>

text \<open>
  Claim C10. In every state the application reaches, stopping the capture while the
  state is \<open>VIEWING_GUIDE\<close> or \<open>HISTORY\<close>, or \<open>SUGGESTING\<close> with content present, changes
  only \<open>stream\<close> and \<open>isAutoScan\<close>. The handler moves a session to \<open>SUGGESTING\<close> only from
  \<open>RECORDING\<close> and \<open>ANALYZING\<close>, and in every session it leaves the suggestions, the
  selected guide, the error message, the last snapshot, the recorded prior state and
  the in-flight flag untouched.
\<close>

theorem stop_leaves_state:
  "((appState (sess (run es (boot st0))) = VIEWING_GUIDE \<or>
     appState (sess (run es (boot st0))) = HISTORY \<or>
     (appState (sess (run es (boot st0))) = SUGGESTING \<and> hasContent (sess (run es (boot st0)))))
    \<longrightarrow> fst (handleStopStream (sess (run es (boot st0)))) =
          (sess (run es (boot st0)))\<lparr>stream := None, isAutoScan := False\<rparr>) \<and>
   (appState (fst (handleStopStream s)) = SUGGESTING \<and> appState s \<noteq> SUGGESTING \<longrightarrow>
      appState s = RECORDING \<or> appState s = ANALYZING) \<and>
   suggestions (fst (handleStopStream s)) = suggestions s \<and>
   selectedGuide (fst (handleStopStream s)) = selectedGuide s \<and>
   errorMsg (fst (handleStopStream s)) = errorMsg s \<and>
   lastImage (fst (handleStopStream s)) = lastImage s \<and>
   previousState (fst (handleStopStream s)) = previousState s \<and>
   isAnalyzing (fst (handleStopStream s)) = isAnalyzing s"
proof -
  have "guide_shown (run es (boot st0))"
    by (rule guide_shown_run) (rule guide_shown_boot)
  then have shown: "appState (sess (run es (boot st0))) = VIEWING_GUIDE \<longrightarrow>
      hasContent (sess (run es (boot st0)))"
    by (simp add: guide_shown_def hasContent_def)
  have kept: "\<And>t. hasContent t \<Longrightarrow> appState t \<noteq> RECORDING \<Longrightarrow> appState t \<noteq> ANALYZING \<Longrightarrow>
      fst (handleStopStream t) = t\<lparr>stream := None, isAutoScan := False\<rparr>"
    by (simp add: handleStopStream_def Let_def)
  have a: "(appState (sess (run es (boot st0))) = VIEWING_GUIDE \<or>
     appState (sess (run es (boot st0))) = HISTORY \<or>
     (appState (sess (run es (boot st0))) = SUGGESTING \<and> hasContent (sess (run es (boot st0)))))
    \<longrightarrow> fst (handleStopStream (sess (run es (boot st0)))) =
          (sess (run es (boot st0)))\<lparr>stream := None, isAutoScan := False\<rparr>"
    using shown kept [of "sess (run es (boot st0))"] by (auto simp add: hasContent_def)
  have b: "appState (fst (handleStopStream s)) = SUGGESTING \<and> appState s \<noteq> SUGGESTING \<longrightarrow>
      appState s = RECORDING \<or> appState s = ANALYZING"
    by (simp add: handleStopStream_def Let_def split: if_splits)
  have c: "suggestions (fst (handleStopStream s)) = suggestions s \<and>
   selectedGuide (fst (handleStopStream s)) = selectedGuide s \<and>
   errorMsg (fst (handleStopStream s)) = errorMsg s \<and>
   lastImage (fst (handleStopStream s)) = lastImage s \<and>
   previousState (fst (handleStopStream s)) = previousState s \<and>
   isAnalyzing (fst (handleStopStream s)) = isAnalyzing s"
    by (simp add: handleStopStream_def Let_def)
  from a b c show ?thesis by blast
qed

text \<open>
  The theorem with the history open over a live capture, and at an analyzing session
  that holds a suggestion.
\<close>

theorem stop_leaves_state_witness:
  "appState (sess (run [ShareClicked True (Acquired 1), HistoryClicked] (boot NoItem))) = HISTORY \<and>
   fst (handleStopStream (sess (run [ShareClicked True (Acquired 1), HistoryClicked] (boot NoItem)))) =
     (sess (run [ShareClicked True (Acquired 1), HistoryClicked] (boot NoItem)))
       \<lparr>stream := None, isAutoScan := False\<rparr> \<and>
   appState (fst (handleStopStream (initial_session\<lparr>appState := ANALYZING, suggestions := [scored ''a'' 90]\<rparr>)))
     = SUGGESTING"
proof -
  have h: "appState (sess (run [ShareClicked True (Acquired 1), HistoryClicked] (boot NoItem))) = HISTORY"
    by (simp add: run_def boot_def initial_session_def startScreenShare_def handleToggleHistory_def)
  have r: "appState (fst (handleStopStream
      (initial_session\<lparr>appState := ANALYZING, suggestions := [scored ''a'' 90]\<rparr>))) = SUGGESTING"
    by (simp add: handleStopStream_def hasContent_def initial_session_def)
  from stop_leaves_state [of "[ShareClicked True (Acquired 1), HistoryClicked]" NoItem
      "initial_session\<lparr>appState := ANALYZING, suggestions := [scored ''a'' 90]\<rparr>"] h r
  show ?thesis by blast
qed

end
